theory Spec2Isabelle
  imports Complex_Main
begin

section \<open>Results of a call\<close>

text \<open>
  The widgets of \<^verbatim>\<open>stylejs.js\<close> are objects whose methods mutate the instance and the
  DOM around it. Every method is modelled as a function from the instance before the call
  to the instance after it. A call that does not come back with a value in the model's
  number types is a value of \<open>fault\<close>:
  \<^item> \<open>TypeError\<close>: a method is called on \<^verbatim>\<open>undefined\<close> (an element read out of range of
    a collection);
  \<^item> \<open>NoReturn\<close>: a \<^verbatim>\<open>while (n)\<close> loop counts \<^verbatim>\<open>n\<close> down from a negative number and
    never reaches zero;
  \<^item> \<open>NotFinite\<close>: a division has a zero divisor. JavaScript computes \<^verbatim>\<open>Infinity\<close> or
    \<^verbatim>\<open>NaN\<close> there, which the numbers of this model (\<open>int\<close> for counts, \<open>real\<close> for
    pixel measures, without rounding) do not contain, and the model follows the call no
    further.
\<close>

datatype fault = TypeError | NoReturn | NotFinite

section \<open>Countdown\<close>

datatype countdown_event = Exceed

text \<open>
  The instance fields \<^verbatim>\<open>_enabled\<close>, \<^verbatim>\<open>_options\<close>, \<^verbatim>\<open>_remaining\<close>, \<^verbatim>\<open>_exceeded\<close>, and the
  part of the DOM the widget reads and writes: the text of the control (\<^verbatim>\<open>_el.value\<close>),
  the error marking of the control and of the container (\<^verbatim>\<open>aria-invalid\<close> with the
  classes \<^verbatim>\<open>ch-validation-error\<close> and \<^verbatim>\<open>ch-countdown-exceeded\<close>, which are always written
  together), the text of the container, and the notifications emitted so far.
  \<^verbatim>\<open>_exceeded\<close> is never initialised by the source; \<^verbatim>\<open>undefined\<close> is read only by
  \<^verbatim>\<open>if (this._exceeded)\<close>, where it counts as false.
\<close>

record countdown_options =
  opt_max :: int
  opt_plural :: string
  opt_singular :: string

record countdown =
  cd_enabled :: bool
  cd_options :: countdown_options
  cd_value :: string
  cd_remaining :: int
  cd_exceeded :: bool
  cd_error :: bool
  cd_container :: string
  cd_emitted :: "countdown_event list"

text \<open>Decimal text of an integer, as string concatenation with a number produces it.\<close>

fun string_of_nat :: "nat \<Rightarrow> string" where
  "string_of_nat n =
     (if n < 10 then [char_of (48 + n)]
      else string_of_nat (n div 10) @ [char_of (48 + n mod 10)])"

definition string_of_int :: "int \<Rightarrow> string" where
  "string_of_int i = (if i < 0 then CHR ''-'' # string_of_nat (nat (- i)) else string_of_nat (nat i))"

text \<open>\<^verbatim>\<open>message.replace('#', r)\<close> replaces the first hash, \<^verbatim>\<open>message.replace(/\#/g, r)\<close> all.\<close>

fun replace_first :: "string \<Rightarrow> string \<Rightarrow> string" where
  "replace_first r [] = []"
| "replace_first r (x # xs) = (if x = CHR ''#'' then r @ xs else x # replace_first r xs)"

fun replace_all :: "string \<Rightarrow> string \<Rightarrow> string" where
  "replace_all r [] = []"
| "replace_all r (x # xs) = (if x = CHR ''#'' then r @ replace_all r xs else x # replace_all r xs)"

definition contentLength :: "countdown \<Rightarrow> int" where
  "contentLength c = int (length (cd_value c))"

definition removeError :: "countdown \<Rightarrow> countdown" where
  "removeError c = c\<lparr>cd_error := False\<rparr>"

text \<open>
  \<^verbatim>\<open>Countdown.prototype._init\<close>, for a control whose text is \<open>v\<close>. The component base
  (\<^verbatim>\<open>ch.Component\<close>, not part of this source) merges the options and leaves the instance
  enabled; the error marking is what the page has, taken as unmarked.
\<close>

definition Countdown_init :: "countdown_options \<Rightarrow> string \<Rightarrow> countdown" where
  "Countdown_init opts v =
     (let remaining = opt_max opts - int (length v);
          message = (if remaining = 1 then opt_singular opts else opt_plural opts)
      in \<lparr>cd_enabled = True, cd_options = opts, cd_value = v, cd_remaining = remaining,
          cd_exceeded = False, cd_error = False,
          cd_container = replace_first (string_of_int remaining) message,
          cd_emitted = []\<rparr>)"

text \<open>\<^verbatim>\<open>Countdown.prototype._count\<close>.\<close>

definition Countdown_count :: "countdown \<Rightarrow> countdown" where
  "Countdown_count c =
     (if \<not> cd_enabled c then c
      else
        let len = contentLength c;
            c1 = c\<lparr>cd_remaining := opt_max (cd_options c) - len\<rparr>;
            c2 = (if len \<le> opt_max (cd_options c1) then
                    (if cd_exceeded c1 then removeError (c1\<lparr>cd_exceeded := False\<rparr>) else c1)
                  else if len > opt_max (cd_options c1) then
                    (c1\<lparr>cd_emitted := cd_emitted c1 @ [Exceed]\<rparr>)
                      \<lparr>cd_exceeded := True, cd_error := True\<rparr>
                  else c1);
            message = replace_all (string_of_int (cd_remaining c2))
                        (if cd_remaining c2 \<noteq> 1 then opt_plural (cd_options c2)
                         else opt_singular (cd_options c2))
        in c2\<lparr>cd_container := message\<rparr>)"

text \<open>
  The handlers registered by \<^verbatim>\<open>_init\<close> for \<^verbatim>\<open>keyup keypress keydown input paste cut\<close> all
  call \<^verbatim>\<open>_count\<close>. An observed event is given by the text \<open>v\<close> the control holds when
  its handler runs.
\<close>

definition observe :: "string \<Rightarrow> countdown \<Rightarrow> countdown" where
  "observe v c = Countdown_count (c\<lparr>cd_value := v\<rparr>)"

fun observe_all :: "string list \<Rightarrow> countdown \<Rightarrow> countdown" where
  "observe_all [] c = c"
| "observe_all (v # vs) c = observe_all vs (observe v c)"

text \<open>
  Modelled from the spec: \<^verbatim>\<open>disable\<close> of the component base, which is not part of this
  source. It clears the enabled flag and notifies \<^verbatim>\<open>disable\<close>, for which \<^verbatim>\<open>_init\<close>
  registers \<^verbatim>\<open>_removeError\<close>: "Disabling the control clears any visible error state
  without altering remaining/exceeded bookkeeping."
\<close>

definition Countdown_disable :: "countdown \<Rightarrow> countdown" where
  "Countdown_disable c = removeError (c\<lparr>cd_enabled := False\<rparr>)"

text \<open>
  The words of the specification: the remaining count and the exceeded flag agree with
  the text the control holds.
\<close>

definition consistent :: "countdown \<Rightarrow> bool" where
  "consistent c \<longleftrightarrow>
     cd_remaining c = opt_max (cd_options c) - int (length (cd_value c)) \<and>
     (cd_exceeded c \<longleftrightarrow> int (length (cd_value c)) > opt_max (cd_options c))"

text \<open>
  The words of the specification: a crossing is an event whose text is longer than the
  maximum while the text before it was not. \<open>crossings m l ls\<close> counts them in the
  lengths \<open>ls\<close>, started from the length \<open>l\<close>.
\<close>

fun crossings :: "int \<Rightarrow> nat \<Rightarrow> nat list \<Rightarrow> nat" where
  "crossings m l [] = 0"
| "crossings m l (k # ks) = (if int l \<le> m \<and> int k > m then 1 else 0) + crossings m k ks"

definition exceed_count :: "countdown \<Rightarrow> nat" where
  "exceed_count c = count_list (cd_emitted c) Exceed"

text \<open>A Countdown of at most two characters on an empty control.\<close>

definition cd2 :: countdown where
  "cd2 = Countdown_init \<lparr>opt_max = 2, opt_plural = ''# characters left.'',
                         opt_singular = ''# character left.''\<rparr> ''''"

section \<open>Carousel\<close>

text \<open>
  An entry of the list is an \<^verbatim>\<open>li\<close> element: one the page came with, or an empty
  placeholder that \<^verbatim>\<open>_loadAsyncItems\<close> appended. Class names, ARIA attributes and the
  style text of the items are not part of the model (so \<^verbatim>\<open>_updateARIA\<close> and the class
  switching of \<^verbatim>\<open>_standbyFX\<close>, which runs its callback at once, leave it unchanged), and
  neither is the \<^verbatim>\<open>ready\<close> notification, which a timer emits after the constructor.
\<close>

datatype li = Content | Placeholder

datatype carousel_event = ItemsAdd "li list" | Refresh | Select | Prev | Next

datatype returned = Page int | This

record carousel_options =
  opt_async :: int
  opt_arrows :: bool
  opt_pagination :: bool
  opt_fx :: bool
  opt_autoHeight :: bool
  opt_autoMargin :: bool
  opt_limitPerPage :: "int option"

text \<open>
  The instance fields of \<^verbatim>\<open>_init\<close> under their own names, and the DOM state the methods
  write: the children of the list element, the thumbnails of the pagination (for each
  its \<^verbatim>\<open>aria-selected\<close>), the disabled marking of both arrows, the inline width of the
  list, its displacement (\<^verbatim>\<open>translateX\<close>, or \<^verbatim>\<open>left\<close> without transitions) and the
  notifications emitted so far. \<^verbatim>\<open>_itemOuterWidth\<close> is a \<^verbatim>\<open>parseInt\<close>, so an integer.
\<close>

record carousel =
  options :: carousel_options
  enabled :: bool
  listChildren :: "li list"
  items :: "li list"
  maskWidth :: real
  itemWidth :: real
  itemOuterWidth :: int
  itemExtraWidth :: real
  itemHeight :: real
  itemMargin :: real
  arrowsCreated :: bool
  paginationCreated :: bool
  limitPerPage :: int
  currentPage :: int
  pages :: int
  pageWidth :: real
  async :: int
  thumbs :: "bool list"
  prevDisabled :: bool
  nextDisabled :: bool
  listWidth :: "real option"
  translation :: "real option"
  emitted :: "carousel_event list"

definition emit :: "carousel_event \<Rightarrow> carousel \<Rightarrow> carousel" where
  "emit e c = c\<lparr>emitted := emitted c @ [e]\<rparr>"

text \<open>\<^verbatim>\<open>Array.prototype.slice.call(xs, start)\<close>: a negative start counts from the end.\<close>

definition slice_from :: "int \<Rightarrow> 'a list \<Rightarrow> 'a list" where
  "slice_from start xs =
     (let len = int (length xs);
          k = (if start < 0 then max (len + start) 0 else min start len)
      in drop (nat k) xs)"

text \<open>
  The loop \<^verbatim>\<open>while (amount) { items += item; amount -= 1; counter += 1; }\<close> of
  \<^verbatim>\<open>_loadAsyncItems\<close>, returning the three variables as the loop leaves them.
\<close>

partial_function (option) loadAsyncItems_loop ::
  "int \<Rightarrow> li list \<Rightarrow> int \<Rightarrow> (int \<times> li list \<times> int) option" where
  "loadAsyncItems_loop amount new counter =
     (if amount \<noteq> 0 then loadAsyncItems_loop (amount - 1) (new @ [Placeholder]) (counter + 1)
      else Some (amount, new, counter))"

declare loadAsyncItems_loop.simps [code]

text \<open>\<^verbatim>\<open>Carousel.prototype._loadAsyncItems\<close>.\<close>

definition loadAsyncItems :: "carousel \<Rightarrow> fault + carousel" where
  "loadAsyncItems c =
     (if async c = 0 then Inr c
      else
        let total = currentPage c * limitPerPage c;
            amount = total - int (length (items c))
        in if amount < 1 then Inr c
           else
             case loadAsyncItems_loop (if async c < amount then async c else amount) [] 0 of
               None \<Rightarrow> Inl NoReturn
             | Some (amount', new, counter) \<Rightarrow>
                 let children = listChildren c @ new;
                     c1 = c\<lparr>listChildren := children, items := children\<rparr>;
                     c2 = c1\<lparr>async := async c1 - amount'\<rparr>
                 in Inr (emit (ItemsAdd (slice_from (- counter) (items c2))) c2))"

text \<open>
  The loop \<^verbatim>\<open>while (page) { ... thumbs.unshift(...); page -= 1; }\<close> of
  \<^verbatim>\<open>_addPagination\<close>; a thumbnail is kept as its \<^verbatim>\<open>aria-selected\<close>.
\<close>

partial_function (option) addPagination_loop ::
  "int \<Rightarrow> int \<Rightarrow> bool list \<Rightarrow> bool list option" where
  "addPagination_loop page current ts =
     (if page \<noteq> 0 then addPagination_loop (page - 1) current ((page = current) # ts)
      else Some ts)"

declare addPagination_loop.simps [code]

definition removePagination :: "carousel \<Rightarrow> carousel" where
  "removePagination c =
     (if \<not> paginationCreated c then c else c\<lparr>thumbs := [], paginationCreated := False\<rparr>)"

definition addPagination :: "carousel \<Rightarrow> fault + carousel" where
  "addPagination c =
     (let c1 = (if paginationCreated c then removePagination c else c)
      in case addPagination_loop (pages c1) (currentPage c1) [] of
           None \<Rightarrow> Inl NoReturn
         | Some ts \<Rightarrow> Inr (c1\<lparr>thumbs := ts, paginationCreated := True\<rparr>))"

definition addArrows :: "carousel \<Rightarrow> carousel" where
  "addArrows c = c\<lparr>arrowsCreated := True\<rparr>"

definition disableArrows :: "bool \<Rightarrow> bool \<Rightarrow> carousel \<Rightarrow> carousel" where
  "disableArrows p n c = c\<lparr>prevDisabled := p, nextDisabled := n\<rparr>"

definition updateArrows :: "carousel \<Rightarrow> carousel" where
  "updateArrows c =
     (if \<not> arrowsCreated c then c
      else if pages c = 1 then disableArrows True True c
      else if currentPage c = 1 then disableArrows True False c
      else if currentPage c = pages c then disableArrows False True c
      else disableArrows False False c)"

definition translate :: "real \<Rightarrow> carousel \<Rightarrow> carousel" where
  "translate displacement c = c\<lparr>translation := Some displacement\<rparr>"

text \<open>
  \<^verbatim>\<open>Carousel.prototype._switchPagination\<close>. \<^verbatim>\<open>children[from - 1]\<close> and
  \<^verbatim>\<open>children[to - 1]\<close> are \<^verbatim>\<open>undefined\<close> out of range, and \<^verbatim>\<open>setAttribute\<close> on them
  throws.
\<close>

definition switchPagination :: "int \<Rightarrow> int \<Rightarrow> carousel \<Rightarrow> fault + carousel" where
  "switchPagination fromPage toPage c =
     (if \<not> paginationCreated c then Inr c
      else if fromPage - 1 < 0 \<or> int (length (thumbs c)) \<le> fromPage - 1 then Inl TypeError
      else if toPage - 1 < 0 \<or> int (length (thumbs c)) \<le> toPage - 1 then Inl TypeError
      else Inr (c\<lparr>thumbs := ((thumbs c)[nat (fromPage - 1) := False])[nat (toPage - 1) := True]\<rparr>))"

text \<open>\<^verbatim>\<open>Carousel.prototype.select\<close>; the argument is \<open>None\<close> for \<^verbatim>\<open>undefined\<close>.\<close>

definition Carousel_select :: "int option \<Rightarrow> carousel \<Rightarrow> fault + returned \<times> carousel" where
  "Carousel_select arg c =
     (case arg of
        None \<Rightarrow> Inr (Page (currentPage c), c)
      | Some page \<Rightarrow>
          (if \<not> enabled c \<or> page = currentPage c \<or> page < 1 \<or> page > pages c then Inr (This, c)
           else
             let c1 = translate (- pageWidth c * of_int (page - 1)) c
             in (case switchPagination (currentPage c1) page c1 of
                   Inl f \<Rightarrow> Inl f
                 | Inr c2 \<Rightarrow>
                     let c3 = updateArrows (c2\<lparr>currentPage := page\<rparr>)
                     in (case loadAsyncItems c3 of
                           Inl f \<Rightarrow> Inl f
                         | Inr c4 \<Rightarrow> Inr (This, emit Select c4)))))"

text \<open>\<^verbatim>\<open>Carousel.prototype.prev\<close> and \<^verbatim>\<open>Carousel.prototype.next\<close>.\<close>

definition Carousel_prev :: "carousel \<Rightarrow> fault + returned \<times> carousel" where
  "Carousel_prev c =
     (case Carousel_select (Some (currentPage c - 1)) c of
        Inl f \<Rightarrow> Inl f
      | Inr (r, c1) \<Rightarrow> Inr (This, emit Prev c1))"

definition Carousel_next :: "carousel \<Rightarrow> fault + returned \<times> carousel" where
  "Carousel_next c =
     (case Carousel_select (Some (currentPage c + 1)) c of
        Inl f \<Rightarrow> Inl f
      | Inr (r, c1) \<Rightarrow> Inr (This, emit Next c1))"

text \<open>
  \<^verbatim>\<open>Carousel.prototype._updatePages\<close>. With zero items per page the quotient is
  \<^verbatim>\<open>Infinity\<close> or \<^verbatim>\<open>NaN\<close>.
\<close>

definition updatePages :: "carousel \<Rightarrow> fault + carousel" where
  "updatePages c =
     (if limitPerPage c = 0 then Inl NotFinite
      else
        let c1 = c\<lparr>pages :=
                   \<lceil>(of_int (int (length (items c)) + async c) :: real) / of_int (limitPerPage c)\<rceil>\<rparr>
        in case loadAsyncItems c1 of
             Inl f \<Rightarrow> Inl f
           | Inr c2 \<Rightarrow>
               let c3 = updateArrows c2
               in if opt_pagination (options c3) then addPagination c3 else Inr c3)"

text \<open>
  The local variable \<^verbatim>\<open>limitPerPage\<close> of \<^verbatim>\<open>_updateLimitPerPage\<close> when the early return is
  reached: \<^verbatim>\<open>Math.floor(this._maskWidth / this._itemOuterWidth) || 1\<close>, lowered to the
  option \<^verbatim>\<open>limitPerPage\<close> when that is set and smaller. The item width is taken as not zero
  here; \<^verbatim>\<open>_updateLimitPerPage\<close> below checks it.
\<close>

definition newLimitPerPage :: "carousel \<Rightarrow> int" where
  "newLimitPerPage c =
     (let q = \<lfloor>maskWidth c / of_int (itemOuterWidth c)\<rfloor>;
          limit = (if q = 0 then 1 else q)
      in case opt_limitPerPage (options c) of
           None \<Rightarrow> limit
         | Some m \<Rightarrow> if limit > m then m else limit)"

text \<open>\<^verbatim>\<open>Carousel.prototype._updateLimitPerPage\<close>.\<close>

definition updateLimitPerPage :: "carousel \<Rightarrow> fault + carousel" where
  "updateLimitPerPage c =
     (if itemOuterWidth c = 0 then Inl NotFinite
      else
        let limit = newLimitPerPage c
        in if limit = limitPerPage c then Inr c
           else
             let firstItemOnPage = (currentPage c - 1) * limitPerPage c + 1
             in case updatePages (c\<lparr>limitPerPage := limit\<rparr>) of
                  Inl f \<Rightarrow> Inl f
                | Inr c1 \<Rightarrow>
                    (case Carousel_select
                            (Some \<lceil>(of_int firstItemOnPage :: real) / of_int limit\<rceil>) c1 of
                       Inl f \<Rightarrow> Inl f
                     | Inr (r, c2) \<Rightarrow> Inr c2))"

text \<open>
  The local variables of \<^verbatim>\<open>_updateDistribution\<close>, as functions of the instance at the
  call. With zero items per page JavaScript's \<^verbatim>\<open>freeSpaceDistribution\<close> is not finite; it
  is then not used, because \<^verbatim>\<open>moreThanOne\<close> is false.
\<close>

definition moreThanOne :: "carousel \<Rightarrow> bool" where
  "moreThanOne c \<longleftrightarrow> limitPerPage c > 1"

definition freeSpace :: "carousel \<Rightarrow> real" where
  "freeSpace c = maskWidth c - of_int (itemOuterWidth c * limitPerPage c)"

definition freeSpaceDistribution :: "carousel \<Rightarrow> real" where
  "freeSpaceDistribution c =
     (if opt_autoMargin (options c) then freeSpace c / of_int (limitPerPage c) / 2
      else freeSpace c / of_int (limitPerPage c))"

definition extraWidth :: "carousel \<Rightarrow> real" where
  "extraWidth c = (if moreThanOne c then freeSpaceDistribution c else freeSpace c)"

definition spaces :: "carousel \<Rightarrow> int" where
  "spaces c = (if moreThanOne c then limitPerPage c - 1 else 0)"

text \<open>\<^verbatim>\<open>Carousel.prototype._updateDistribution\<close>.\<close>

definition updateDistribution :: "carousel \<Rightarrow> carousel" where
  "updateDistribution c =
     (if extraWidth c = itemExtraWidth c \<and> extraWidth c > 0 then c
      else
        let c1 = c\<lparr>itemExtraWidth := extraWidth c\<rparr>;
            c2 = c1\<lparr>itemMargin :=
                     (if opt_autoMargin (options c1) \<and> moreThanOne c
                      then freeSpace c / of_int (spaces c) / 2 else 0)\<rparr>;
            c3 = c2\<lparr>pageWidth :=
                     (of_int (itemOuterWidth c2) + extraWidth c + itemMargin c2)
                       * of_int (limitPerPage c2)\<rparr>;
            c4 = c3\<lparr>listWidth := Some (pageWidth c3 * of_int (pages c3))\<rparr>
        in translate (- pageWidth c4 * of_int (currentPage c4 - 1)) c4)"

text \<open>
  \<^verbatim>\<open>Carousel.prototype.refresh\<close>, which the constructor registers for every resize of the
  viewport; \<open>measured\<close> is the width of the mask that \<^verbatim>\<open>_getOuterDimensions\<close> reads at the
  call.
\<close>

definition refresh :: "real \<Rightarrow> carousel \<Rightarrow> fault + returned \<times> carousel" where
  "refresh measured c =
     (case (if measured \<noteq> maskWidth c then
              (case updateLimitPerPage (c\<lparr>maskWidth := measured\<rparr>) of
                 Inl f \<Rightarrow> Inl f
               | Inr c1 \<Rightarrow> Inr (emit Refresh (updateDistribution c1)))
            else Inr c) of
        Inl f \<Rightarrow> Inl f
      | Inr c2 \<Rightarrow>
          (case (if length (listChildren c2) \<noteq> length (items c2) then
                   (case updatePages (c2\<lparr>items := listChildren c2\<rparr>) of
                      Inl f \<Rightarrow> Inl f
                    | Inr c3 \<Rightarrow>
                        (case (if currentPage c3 > pages c3 then
                                 (case Carousel_select (Some (pages c3)) c3 of
                                    Inl f \<Rightarrow> Inl f
                                  | Inr (r, c4) \<Rightarrow> Inr c4)
                               else Inr c3) of
                           Inl f \<Rightarrow> Inl f
                         | Inr c5 \<Rightarrow> Inr (emit Refresh c5)))
                 else Inr c2) of
             Inl f \<Rightarrow> Inl f
           | Inr c6 \<Rightarrow> Inr (This, c6)))"

text \<open>
  \<^verbatim>\<open>Carousel.prototype._init\<close>, for a list with the entries \<open>lis\<close>, from the measures the
  DOM gives: the width of the mask, the outer width and height of the first item and its
  CSS width. Without a first item \<^verbatim>\<open>_getOuterDimensions(this._items[0])\<close> throws. The
  component base (\<^verbatim>\<open>ch.Component\<close>, not part of this source) merges the options with the
  defaults and leaves the instance enabled. The previous arrow is created with the class
  \<^verbatim>\<open>ch-carousel-disabled\<close>.
\<close>

definition Carousel_init ::
  "carousel_options \<Rightarrow> li list \<Rightarrow> real \<Rightarrow> real \<Rightarrow> int \<Rightarrow> real \<Rightarrow> fault + carousel" where
  "Carousel_init opts lis maskW itemW itemCssW itemH =
     (if lis = [] then Inl TypeError
      else
        let c0 = \<lparr>options = opts, enabled = True, listChildren = lis, items = lis,
                  maskWidth = maskW, itemWidth = itemW, itemOuterWidth = itemCssW,
                  itemExtraWidth = 0, itemHeight = itemH, itemMargin = 0,
                  arrowsCreated = False, paginationCreated = False, limitPerPage = 0,
                  currentPage = 1, pages = 0, pageWidth = 0, async = opt_async opts,
                  thumbs = [], prevDisabled = True, nextDisabled = False,
                  listWidth = None, translation = None, emitted = []\<rparr>
        in case (if opt_pagination (options c0) then addPagination c0 else Inr c0) of
             Inl f \<Rightarrow> Inl f
           | Inr c1 \<Rightarrow>
               let c2 = (if opt_arrows (options c1) then addArrows c1 else c1)
               in (case updateLimitPerPage c2 of
                     Inl f \<Rightarrow> Inl f
                   | Inr c3 \<Rightarrow> Inr (updateDistribution c3)))"

text \<open>
  Modelled from the spec: \<^verbatim>\<open>enable\<close> and \<^verbatim>\<open>disable\<close> of the component base
  (\<^verbatim>\<open>ch.Component\<close>, not part of this source), which set the flag \<^verbatim>\<open>_enabled\<close> that
  \<^verbatim>\<open>select\<close> reads ("\<^verbatim>\<open>select(page)\<close> is a no-op if disabled"). \<^verbatim>\<open>Carousel.prototype.enable\<close>
  and \<^verbatim>\<open>Carousel.prototype.disable\<close> mark the arrows and then call them.
\<close>

definition Carousel_enable :: "carousel \<Rightarrow> carousel" where
  "Carousel_enable c = (disableArrows False False c)\<lparr>enabled := True\<rparr>"

definition Carousel_disable :: "carousel \<Rightarrow> carousel" where
  "Carousel_disable c = (disableArrows True True c)\<lparr>enabled := False\<rparr>"

text \<open>The number of placeholders in the list: the items injected asynchronously so far.\<close>

definition injected :: "carousel \<Rightarrow> nat" where
  "injected c = count_list (items c) Placeholder"

text \<open>
  The first number \<^verbatim>\<open>_loadAsyncItems\<close> gives its local variable \<^verbatim>\<open>amount\<close>: the items
  that complete the list up to the end of the current page.
\<close>

definition needed :: "carousel \<Rightarrow> int" where
  "needed c = currentPage c * limitPerPage c - int (length (items c))"

text \<open>
  What the instances that the constructor and the page selection produce have in common:
  the asynchronous budget is not negative, and a pagination that exists has a thumbnail
  for the current page and for every page.
\<close>

definition wellformed :: "carousel \<Rightarrow> bool" where
  "wellformed c \<longleftrightarrow>
     0 \<le> async c \<and>
     (paginationCreated c \<longrightarrow>
        1 \<le> currentPage c \<and> currentPage c \<le> int (length (thumbs c)) \<and>
        pages c \<le> int (length (thumbs c)))"

text \<open>
  A public method that cannot fail and returns the instance (\<^verbatim>\<open>enable\<close>, \<^verbatim>\<open>disable\<close>), in
  the shape of the others.
\<close>

definition returning :: "(carousel \<Rightarrow> carousel) \<Rightarrow> carousel \<Rightarrow> fault + returned \<times> carousel" where
  "returning m c = Inr (This, m c)"

text \<open>Public methods called one after the other on one instance; a fault ends the run.\<close>

fun calls ::
  "(carousel \<Rightarrow> fault + returned \<times> carousel) list \<Rightarrow> fault + carousel \<Rightarrow> fault + carousel" where
  "calls [] r = r"
| "calls (m # ms) r =
     calls ms (case r of
                 Inl f \<Rightarrow> Inl f
               | Inr c \<Rightarrow> (case m c of Inl f \<Rightarrow> Inl f | Inr (ret, c') \<Rightarrow> Inr c'))"

text \<open>
  Instances used as examples. The options are the defaults of \<^verbatim>\<open>_defaults\<close> with an
  asynchronous budget of one item; the list has three items of 200 pixels. \<open>pre600\<close> and
  \<open>pre620\<close> are the instance as \<^verbatim>\<open>_init\<close> hands it to \<^verbatim>\<open>_updateDistribution\<close> under a
  mask of 600 and of 620 pixels, \<open>car600\<close>, \<open>car620\<close> and \<open>car420\<close> the instance the
  constructor leaves under a mask of 600, 620 and 420 pixels.
\<close>

definition opts1 :: carousel_options where
  "opts1 = \<lparr>opt_async = 1, opt_arrows = True, opt_pagination = False, opt_fx = True,
            opt_autoHeight = True, opt_autoMargin = True, opt_limitPerPage = None\<rparr>"

definition pre600 :: carousel where
  "pre600 = \<lparr>options = opts1, enabled = True, listChildren = [Content, Content, Content],
              items = [Content, Content, Content], maskWidth = 600, itemWidth = 200,
              itemOuterWidth = 200, itemExtraWidth = 0, itemHeight = 100, itemMargin = 0,
              arrowsCreated = True, paginationCreated = False, limitPerPage = 3,
              currentPage = 1, pages = 2, pageWidth = 0, async = 1, thumbs = [],
              prevDisabled = True, nextDisabled = False, listWidth = None,
              translation = None, emitted = []\<rparr>"

definition car600 :: carousel where
  "car600 = pre600\<lparr>pageWidth := 600, listWidth := Some 1200, translation := Some 0\<rparr>"

text \<open>\<open>car600\<close> after \<^verbatim>\<open>next()\<close>, on its second and last page.\<close>

definition car600_page2 :: carousel where
  "car600_page2 =
     car600\<lparr>listChildren := [Content, Content, Content, Placeholder],
             items := [Content, Content, Content, Placeholder], currentPage := 2,
             prevDisabled := False, nextDisabled := True, translation := Some (- 600),
             emitted := [ItemsAdd [Placeholder], Select, Next]\<rparr>"

definition pre620 :: carousel where
  "pre620 = pre600\<lparr>maskWidth := 620\<rparr>"

definition car620 :: carousel where
  "car620 = pre620\<lparr>itemExtraWidth := 10 / 3, itemMargin := 5, pageWidth := 625,
                     listWidth := Some 1250, translation := Some 0\<rparr>"

definition car420 :: carousel where
  "car420 = pre600\<lparr>maskWidth := 420, limitPerPage := 2, itemExtraWidth := 5, itemMargin := 10,
                     pageWidth := 430, listWidth := Some 860, translation := Some 0\<rparr>"

text \<open>The default options with a pagination and no asynchronous items.\<close>

definition opts_pag :: carousel_options where
  "opts_pag = \<lparr>opt_async = 0, opt_arrows = True, opt_pagination = True, opt_fx = True,
               opt_autoHeight = True, opt_autoMargin = True, opt_limitPerPage = None\<rparr>"

section \<open>Countdown: properties\<close>

lemma Countdown_count_enabled: "cd_enabled (Countdown_count c) = cd_enabled c"
  by (simp add: Countdown_count_def Let_def removeError_def)

lemma Countdown_count_options: "cd_options (Countdown_count c) = cd_options c"
  by (simp add: Countdown_count_def Let_def removeError_def)

lemma observe_enabled: "cd_enabled (observe v c) = cd_enabled c"
  by (simp add: observe_def Countdown_count_enabled)

lemma observe_options: "cd_options (observe v c) = cd_options c"
  by (simp add: observe_def Countdown_count_options)

lemma observe_value: "cd_value (observe v c) = v"
  by (simp add: observe_def Countdown_count_def Let_def removeError_def)

text \<open>
  C7. After an enabled Countdown has processed an event at which the control holds a text
  of length \<open>L\<close>, the stored remaining count is \<open>max - L\<close>, and the exceeded flag is set
  if and only if \<open>L > max\<close>.
\<close>

theorem C7_count_remaining_exceeded:
  assumes "cd_enabled c"
  shows "cd_remaining (observe v c) = opt_max (cd_options c) - int (length v) \<and>
         (cd_exceeded (observe v c) \<longleftrightarrow> int (length v) > opt_max (cd_options c))"
  using assms
  by (simp add: observe_def Countdown_count_def contentLength_def Let_def removeError_def)

theorem C7_count_remaining_exceeded_witness:
  "cd_enabled (Countdown_init \<lparr>opt_max = 3, opt_plural = ''# left'', opt_singular = ''# left''\<rparr> '''') \<and>
   cd_remaining (observe ''abcde''
      (Countdown_init \<lparr>opt_max = 3, opt_plural = ''# left'', opt_singular = ''# left''\<rparr> '''')) = - 2 \<and>
   cd_exceeded (observe ''abcde''
      (Countdown_init \<lparr>opt_max = 3, opt_plural = ''# left'', opt_singular = ''# left''\<rparr> ''''))"
  using C7_count_remaining_exceeded
    [of "Countdown_init \<lparr>opt_max = 3, opt_plural = ''# left'', opt_singular = ''# left''\<rparr> ''''"
        "''abcde''"]
  by (simp add: Countdown_init_def)

lemma observe_exceed_count:
  "cd_enabled c \<Longrightarrow>
   exceed_count (observe v c) =
     exceed_count c + (if int (length v) > opt_max (cd_options c) then 1 else 0)"
  by (simp add: exceed_count_def observe_def Countdown_count_def contentLength_def Let_def
      removeError_def)

lemma crossings_le_filter:
  "crossings m l (map length vs) \<le> length (filter (\<lambda>v. int (length v) > m) vs)"
proof (induction vs arbitrary: l)
  case Nil
  show ?case by simp
next
  case (Cons v vs)
  from Cons.IH [of "length v"] show ?case by simp
qed

text \<open>
  C2, as the code has it. While an enabled Countdown processes a sequence of events, it
  emits \<^verbatim>\<open>exceed\<close> once for every event at which the text is longer than the maximum,
  also when the text before that event was already longer, and for no other event. So
  every crossing is notified, and so is every later event above the maximum.
\<close>

theorem C2_exceed_on_every_event_above_max:
  assumes "cd_enabled c"
  shows "exceed_count (observe_all vs c) =
           exceed_count c + length (filter (\<lambda>v. int (length v) > opt_max (cd_options c)) vs) \<and>
         exceed_count c + crossings (opt_max (cd_options c)) (length (cd_value c)) (map length vs)
           \<le> exceed_count (observe_all vs c)"
proof -
  have main: "cd_enabled c \<Longrightarrow> exceed_count (observe_all vs c) =
           exceed_count c + length (filter (\<lambda>v. int (length v) > opt_max (cd_options c)) vs)"
  proof (induction vs arbitrary: c)
    case Nil
    then show ?case by simp
  next
    case (Cons v vs)
    have "cd_enabled (observe v c)" using Cons.prems by (simp add: observe_enabled)
    from Cons.IH [OF this] show ?case
      using Cons.prems by (simp add: observe_exceed_count observe_options)
  qed
  show ?thesis
    using main [OF assms]
      crossings_le_filter [of "opt_max (cd_options c)" "length (cd_value c)" vs]
    by simp
qed

text \<open>
  C2 as stated fails: with a maximum of two, the texts \<^verbatim>\<open>abc\<close> and \<^verbatim>\<open>abcd\<close> after the
  empty text cross the maximum once, and \<^verbatim>\<open>exceed\<close> is emitted twice.
\<close>

theorem C2_counterexample:
  "cd_enabled cd2 \<and> exceed_count (observe_all [''abc'', ''abcd''] cd2) = 2 \<and>
   crossings (opt_max (cd_options cd2)) (length (cd_value cd2)) (map length [''abc'', ''abcd'']) = 1"
  by (simp add: cd2_def Countdown_init_def observe_def Countdown_count_def contentLength_def Let_def
      removeError_def exceed_count_def)

theorem C2_exceed_on_every_event_above_max_witness:
  "cd_enabled cd2 \<and> exceed_count (observe_all [''abc'', ''ab'', ''abcd'', ''abcde''] cd2) = 3"
  using C2_exceed_on_every_event_above_max [of cd2 "[''abc'', ''ab'', ''abcd'', ''abcde'']"]
  by (simp add: cd2_def Countdown_init_def exceed_count_def)

text \<open>
  C8 as stated fails for a disabled instance: the event is observed, and the remaining
  count stays what it was.
\<close>

theorem C8_counterexample:
  "\<not> consistent (observe ''abc'' (Countdown_disable cd2))"
  by (simp add: cd2_def Countdown_init_def Countdown_disable_def observe_def Countdown_count_def
      consistent_def removeError_def)

text \<open>
  C8, as the code has it. After an observed event an enabled instance has the remaining
  count and the exceeded flag that the text of the control gives; a disabled instance
  returns from the handler at once, with both as they were.
\<close>

theorem C8_observe:
  "(cd_enabled c \<longrightarrow> consistent (observe v c)) \<and>
   (\<not> cd_enabled c \<longrightarrow> observe v c = c\<lparr>cd_value := v\<rparr>)"
  by (simp add: observe_def Countdown_count_def contentLength_def Let_def removeError_def consistent_def)

theorem C8_observe_witness:
  "cd_enabled cd2 \<and> consistent (observe ''abc'' cd2) \<and>
   \<not> cd_enabled (Countdown_disable cd2) \<and>
   cd_remaining (observe ''abc'' (Countdown_disable cd2)) = 2"
  using C8_observe [of cd2 "''abc''"] C8_observe [of "Countdown_disable cd2" "''abc''"]
  by (simp add: cd2_def Countdown_init_def Countdown_disable_def removeError_def)

section \<open>Carousel: the loops\<close>

lemma loadAsyncItems_loop_returns:
  "0 \<le> amount \<Longrightarrow>
   loadAsyncItems_loop amount new counter =
     Some (0, new @ replicate (nat amount) Placeholder, counter + amount)"
proof (induction "nat amount" arbitrary: amount new counter)
  case 0
  then have "amount = 0" by simp
  then show ?case by (simp add: loadAsyncItems_loop.simps)
next
  case (Suc n)
  then have pos: "amount \<noteq> 0" and n: "n = nat (amount - 1)" and ge: "0 \<le> amount - 1"
    by auto
  have "loadAsyncItems_loop amount new counter =
          loadAsyncItems_loop (amount - 1) (new @ [Placeholder]) (counter + 1)"
    using pos by (subst loadAsyncItems_loop.simps) simp
  also have "\<dots> = Some (0, (new @ [Placeholder]) @ replicate (nat (amount - 1)) Placeholder,
                        (counter + 1) + (amount - 1))"
    by (rule Suc.hyps(1) [OF n ge])
  also have "(new @ [Placeholder]) @ replicate (nat (amount - 1)) Placeholder =
               new @ replicate (nat amount) Placeholder"
    using Suc.hyps(2) n by (simp add: replicate_app_Cons_same flip: replicate_Suc)
  finally show ?case by simp
qed

lemma addPagination_loop_returns:
  "0 \<le> page \<Longrightarrow>
   addPagination_loop page current ts = Some (map (\<lambda>p. p = current) [1..page] @ ts)"
proof (induction "nat page" arbitrary: page ts)
  case 0
  then have "page = 0" by simp
  then show ?case by (simp add: addPagination_loop.simps)
next
  case (Suc n)
  then have pos: "page \<noteq> 0" and n: "n = nat (page - 1)" and ge: "0 \<le> page - 1" and one: "1 \<le> page"
    by auto
  have "addPagination_loop page current ts =
          addPagination_loop (page - 1) current ((page = current) # ts)"
    using pos by (subst addPagination_loop.simps) simp
  also have "\<dots> = Some (map (\<lambda>p. p = current) [1..page - 1] @ (page = current) # ts)"
    by (rule Suc.hyps(1) [OF n ge])
  finally show ?case using one by (simp add: upto_rec2)
qed

lemma loadAsyncItems_loop_Some_nonneg:
  assumes "loadAsyncItems_loop amount new counter = Some r"
  shows "0 \<le> amount"
proof (rule loadAsyncItems_loop.raw_induct [where P = "\<lambda>a n k r. 0 \<le> a", OF _ assms])
  fix loop :: "int \<Rightarrow> li list \<Rightarrow> int \<Rightarrow> (int \<times> li list \<times> int) option"
  fix a n k r
  assume IH: "\<And>a n k r. loop a n k = Some r \<Longrightarrow> 0 \<le> a"
    and step: "(if a \<noteq> 0 then loop (a - 1) (n @ [Placeholder]) (k + 1) else Some (a, n, k)) = Some r"
  show "0 \<le> a"
  proof (cases "a = 0")
    case True
    then show ?thesis by simp
  next
    case False
    with step have "loop (a - 1) (n @ [Placeholder]) (k + 1) = Some r" by simp
    from IH [OF this] show ?thesis by simp
  qed
qed

lemma loadAsyncItems_loop_diverges:
  "amount < 0 \<Longrightarrow> loadAsyncItems_loop amount new counter = None"
  using loadAsyncItems_loop_Some_nonneg [of amount new counter]
  by (cases "loadAsyncItems_loop amount new counter") auto

lemma addPagination_loop_Some_nonneg:
  assumes "addPagination_loop page current ts = Some r"
  shows "0 \<le> page"
proof (rule addPagination_loop.raw_induct [where P = "\<lambda>p k t r. 0 \<le> p", OF _ assms])
  fix loop :: "int \<Rightarrow> int \<Rightarrow> bool list \<Rightarrow> bool list option"
  fix p k t r
  assume IH: "\<And>p k t r. loop p k t = Some r \<Longrightarrow> 0 \<le> p"
    and step: "(if p \<noteq> 0 then loop (p - 1) k ((p = k) # t) else Some t) = Some r"
  show "0 \<le> p"
  proof (cases "p = 0")
    case True
    then show ?thesis by simp
  next
    case False
    with step have "loop (p - 1) k ((p = k) # t) = Some r" by simp
    from IH [OF this] show ?thesis by simp
  qed
qed

text \<open>
  So a negative budget that is reached, and a negative number of pages, keep their method
  from returning.
\<close>

lemma loadAsyncItems_NoReturn:
  assumes "async c < 0" and "1 \<le> needed c"
  shows "loadAsyncItems c = Inl NoReturn"
proof -
  have "loadAsyncItems_loop (async c) [] 0 = None"
    using assms(1) by (rule loadAsyncItems_loop_diverges)
  then show ?thesis
    using assms by (simp add: loadAsyncItems_def needed_def Let_def)
qed

lemma addPagination_NoReturn:
  assumes "pages c < 0"
  shows "addPagination c = Inl NoReturn"
proof -
  have "addPagination_loop (pages c) (currentPage c) [] = None"
    using addPagination_loop_Some_nonneg [of "pages c" "currentPage c" "[]"] assms
    by (cases "addPagination_loop (pages c) (currentPage c) []") auto
  then show ?thesis
    by (simp add: addPagination_def removePagination_def Let_def)
qed

section \<open>Carousel: what the methods keep and when they return\<close>

text \<open>
  With a budget that is not negative \<^verbatim>\<open>_loadAsyncItems\<close> returns, and appends
  \<open>min budget needed\<close> placeholders when both are positive. The loop has counted
  \<^verbatim>\<open>amount\<close> down to zero when \<^verbatim>\<open>this._async -= amount\<close> runs, so the budget stays.
\<close>

lemma loadAsyncItems_eq:
  assumes "0 \<le> async c"
  shows "loadAsyncItems c =
           Inr (if async c = 0 \<or> needed c < 1 then c
                else let children = listChildren c @ replicate (nat (min (async c) (needed c))) Placeholder
                     in emit (ItemsAdd (slice_from (- min (async c) (needed c)) children))
                          (c\<lparr>listChildren := children, items := children\<rparr>))"
proof (cases "async c = 0 \<or> needed c < 1")
  case True
  then show ?thesis by (auto simp: loadAsyncItems_def needed_def Let_def)
next
  case False
  then have k: "0 \<le> min (async c) (needed c)" using assms by simp
  have lt: "async c < needed c \<Longrightarrow> min (async c) (needed c) = async c"
    and ge: "\<not> async c < needed c \<Longrightarrow> min (async c) (needed c) = needed c"
    by simp_all
  show ?thesis
    using False k
    by (auto simp add: loadAsyncItems_def Let_def loadAsyncItems_loop_returns lt ge
        simp flip: needed_def)
qed

lemma loadAsyncItems_async:
  assumes "0 \<le> async c" and "loadAsyncItems c = Inr c'"
  shows "async c' = async c"
  using assms(2) unfolding loadAsyncItems_eq [OF assms(1)]
  by (auto simp: emit_def Let_def split: if_splits)

lemma count_list_replicate_same: "count_list (replicate n x) x = n"
  by (induction n) simp_all

lemma loadAsyncItems_injects:
  assumes "0 \<le> async c" and "listChildren c = items c" and "loadAsyncItems c = Inr c'"
  shows "int (injected c') =
           int (injected c) + (if async c = 0 \<or> needed c < 1 then 0 else min (async c) (needed c))"
  using assms(3) assms(1,2) unfolding loadAsyncItems_eq [OF assms(1)]
  by (auto simp: emit_def Let_def injected_def count_list_replicate_same split: if_splits)

lemma loadAsyncItems_keeps:
  assumes "loadAsyncItems c = Inr c'"
  shows "pages c' = pages c \<and> limitPerPage c' = limitPerPage c \<and>
         currentPage c' = currentPage c \<and> options c' = options c \<and>
         paginationCreated c' = paginationCreated c \<and> thumbs c' = thumbs c \<and>
         arrowsCreated c' = arrowsCreated c"
  using assms
  by (auto simp: loadAsyncItems_def Let_def emit_def split: if_splits option.splits)

lemma updateArrows_keeps:
  "pages (updateArrows c) = pages c \<and> limitPerPage (updateArrows c) = limitPerPage c \<and>
   currentPage (updateArrows c) = currentPage c \<and> options (updateArrows c) = options c \<and>
   paginationCreated (updateArrows c) = paginationCreated c \<and>
   thumbs (updateArrows c) = thumbs c \<and> async (updateArrows c) = async c \<and>
   items (updateArrows c) = items c"
  by (simp add: updateArrows_def disableArrows_def)

lemma addPagination_keeps:
  assumes "addPagination c = Inr c'"
  shows "pages c' = pages c \<and> limitPerPage c' = limitPerPage c \<and>
         currentPage c' = currentPage c \<and> options c' = options c \<and> async c' = async c"
  using assms
  by (auto simp: addPagination_def removePagination_def Let_def split: if_splits option.splits)

lemma addPagination_returns:
  assumes "0 \<le> pages c"
  shows "\<exists>c'. addPagination c = Inr c' \<and> paginationCreated c' \<and>
              int (length (thumbs c')) = pages c \<and> async c' = async c \<and>
              currentPage c' = currentPage c \<and> pages c' = pages c \<and>
              limitPerPage c' = limitPerPage c"
  using assms
  by (simp add: addPagination_def removePagination_def Let_def addPagination_loop_returns)

lemma switchPagination_keeps:
  assumes "switchPagination a b c = Inr c'"
  shows "limitPerPage c' = limitPerPage c"
  using assms by (auto simp: switchPagination_def split: if_splits)

text \<open>The two ways through \<^verbatim>\<open>_updateDistribution\<close>.\<close>

lemma updateDistribution_skip:
  assumes "extraWidth c = itemExtraWidth c \<and> 0 < extraWidth c"
  shows "updateDistribution c = c"
  using assms by (simp add: updateDistribution_def)

lemma updateDistribution_recompute:
  assumes "\<not> (extraWidth c = itemExtraWidth c \<and> 0 < extraWidth c)"
  shows "updateDistribution c =
           (let margin = (if opt_autoMargin (options c) \<and> 1 < limitPerPage c
                          then freeSpace c / of_int (limitPerPage c - 1) / 2 else 0);
                width = (of_int (itemOuterWidth c) + extraWidth c + margin) * of_int (limitPerPage c)
            in c\<lparr>itemExtraWidth := extraWidth c, itemMargin := margin, pageWidth := width,
                 listWidth := Some (width * of_int (pages c)),
                 translation := Some (- width * of_int (currentPage c - 1))\<rparr>)"
  by (simp only: updateDistribution_def if_not_P [OF assms])
     (simp add: Let_def translate_def moreThanOne_def spaces_def)

lemma updateDistribution_keeps:
  "async (updateDistribution c) = async c \<and> currentPage (updateDistribution c) = currentPage c \<and>
   pages (updateDistribution c) = pages c \<and> thumbs (updateDistribution c) = thumbs c \<and>
   paginationCreated (updateDistribution c) = paginationCreated c \<and>
   limitPerPage (updateDistribution c) = limitPerPage c \<and> items (updateDistribution c) = items c"
  by (simp add: updateDistribution_def Let_def translate_def)

text \<open>A page selection on a well-formed instance returns the instance, well-formed.\<close>

lemma select_returns:
  assumes "wellformed c"
  shows "\<exists>c'. Carousel_select (Some page) c = Inr (This, c') \<and> wellformed c'"
proof (cases "\<not> enabled c \<or> page = currentPage c \<or> page < 1 \<or> page > pages c")
  case True
  then show ?thesis using assms by (simp add: Carousel_select_def)
next
  case False
  define c1 where "c1 = translate (- pageWidth c * of_int (page - 1)) c"
  define c2 where
    "c2 = (if paginationCreated c
           then c1\<lparr>thumbs := ((thumbs c1)[nat (currentPage c1 - 1) := False])[nat (page - 1) := True]\<rparr>
           else c1)"
  define c3 where "c3 = updateArrows (c2\<lparr>currentPage := page\<rparr>)"
  have sw: "switchPagination (currentPage c1) page c1 = Inr c2"
    using False assms
    by (auto simp: switchPagination_def c1_def c2_def translate_def wellformed_def)
  have a3: "0 \<le> async c3" and wf3: "wellformed c3"
    using False assms
    by (auto simp: c3_def c2_def c1_def translate_def updateArrows_def disableArrows_def
        wellformed_def)
  obtain c4 where l: "loadAsyncItems c3 = Inr c4"
    using loadAsyncItems_eq [OF a3] by blast
  have wf4: "wellformed c4"
    using l wf3 unfolding loadAsyncItems_eq [OF a3]
    by (auto simp: wellformed_def emit_def Let_def split: if_splits)
  have "Carousel_select (Some page) c = Inr (This, emit Select c4)"
    using False sw l unfolding c1_def c3_def by (simp add: Carousel_select_def Let_def)
  moreover have "wellformed (emit Select c4)" using wf4 by (simp add: wellformed_def emit_def)
  ultimately show ?thesis by blast
qed

lemma select_limitPerPage:
  assumes "Carousel_select arg c = Inr (r, c')"
  shows "limitPerPage c' = limitPerPage c"
proof (cases arg)
  case None
  with assms show ?thesis by (simp add: Carousel_select_def)
next
  case (Some page)
  show ?thesis
  proof (cases "\<not> enabled c \<or> page = currentPage c \<or> page < 1 \<or> page > pages c")
    case True
    with assms Some show ?thesis by (simp add: Carousel_select_def)
  next
    case False
    let ?c1 = "translate (- pageWidth c * of_int (page - 1)) c"
    from assms Some False obtain c2 where sw: "switchPagination (currentPage ?c1) page ?c1 = Inr c2"
      by (auto simp: Carousel_select_def Let_def split: sum.splits)
    let ?c3 = "updateArrows (c2\<lparr>currentPage := page\<rparr>)"
    from assms Some False sw obtain c4 where l: "loadAsyncItems ?c3 = Inr c4"
      and c': "c' = emit Select c4"
      by (auto simp: Carousel_select_def Let_def split: sum.splits)
    have "limitPerPage c4 = limitPerPage ?c3" using loadAsyncItems_keeps [OF l] by simp
    also have "\<dots> = limitPerPage c2" by (simp add: updateArrows_keeps)
    also have "\<dots> = limitPerPage ?c1" by (rule switchPagination_keeps [OF sw])
    finally show ?thesis by (simp add: c' emit_def translate_def)
  qed
qed

lemma prev_next_wellformed:
  assumes "wellformed c"
  shows "(\<exists>c'. Carousel_prev c = Inr (This, c') \<and> wellformed c') \<and>
         (\<exists>c'. Carousel_next c = Inr (This, c') \<and> wellformed c')"
proof -
  have e: "wellformed (emit e x) = wellformed x" for e x
    by (simp add: wellformed_def emit_def)
  show ?thesis
    using select_returns [OF assms, of "currentPage c - 1"]
      select_returns [OF assms, of "currentPage c + 1"]
    by (auto simp: Carousel_prev_def Carousel_next_def e)
qed

text \<open>
  The constructor on the example lists. \<open>pre600\<close> is what \<^verbatim>\<open>_updateLimitPerPage\<close> makes of
  the fields as \<^verbatim>\<open>_init\<close> sets them, with the arrows added.
\<close>

lemma pre600_in_init:
  "updateLimitPerPage (addArrows (pre600\<lparr>arrowsCreated := False, limitPerPage := 0, pages := 0\<rparr>))
     = Inr pre600"
  by (simp add: opts1_def pre600_def addArrows_def updateLimitPerPage_def
      newLimitPerPage_def updatePages_def loadAsyncItems_def Let_def updateArrows_def
      disableArrows_def Carousel_select_def ceiling_divide_eq_div [of 1 3, simplified])

lemma init600:
  "Carousel_init opts1 [Content, Content, Content] 600 200 200 100 = Inr (updateDistribution pre600)"
  by (simp add: Carousel_init_def opts1_def pre600_def addArrows_def updateLimitPerPage_def
      newLimitPerPage_def updatePages_def loadAsyncItems_def Let_def updateArrows_def
      disableArrows_def Carousel_select_def ceiling_divide_eq_div [of 1 3, simplified])

lemma updateDistribution_pre600: "updateDistribution pre600 = car600"
  by (simp add: updateDistribution_def extraWidth_def moreThanOne_def freeSpace_def
      freeSpaceDistribution_def spaces_def translate_def Let_def pre600_def car600_def opts1_def)

lemma init620:
  "Carousel_init opts1 [Content, Content, Content] 620 200 200 100 = Inr (updateDistribution pre620)"
  by (simp add: Carousel_init_def opts1_def pre600_def pre620_def addArrows_def
      updateLimitPerPage_def newLimitPerPage_def updatePages_def loadAsyncItems_def Let_def
      updateArrows_def disableArrows_def Carousel_select_def
      ceiling_divide_eq_div [of 1 3, simplified])

lemma updateDistribution_pre620: "updateDistribution pre620 = car620"
  by (simp add: updateDistribution_def extraWidth_def moreThanOne_def freeSpace_def
      freeSpaceDistribution_def spaces_def translate_def Let_def pre600_def pre620_def
      car620_def opts1_def)

lemma next_car600: "Carousel_next car600 = Inr (This, car600_page2)"
  by (simp add: Carousel_next_def Carousel_select_def car600_def car600_page2_def pre600_def
      translate_def switchPagination_def updateArrows_def disableArrows_def loadAsyncItems_eq
      needed_def emit_def slice_from_def Let_def)

section \<open>Carousel: page selection\<close>

text \<open>
  C9. \<^verbatim>\<open>select(page)\<close> with a page is a no-operation when the component is disabled, when
  the page is the current one, and when it is below 1 or above the number of pages: it
  returns the instance, and nothing of the instance or of the DOM changes (current page,
  displacement of the list, pagination, arrows, notifications).
\<close>

theorem C9_select_noop:
  assumes "\<not> enabled c \<or> page = currentPage c \<or> page < 1 \<or> page > pages c"
  shows "Carousel_select (Some page) c = Inr (This, c)"
  using assms by (simp add: Carousel_select_def)

theorem C9_select_noop_witness:
  "3 > pages car600 \<and> Carousel_select (Some 3) car600 = Inr (This, car600) \<and>
   1 = currentPage car600 \<and> Carousel_select (Some 1) car600 = Inr (This, car600) \<and>
   \<not> enabled (Carousel_disable car600) \<and>
   Carousel_select (Some 2) (Carousel_disable car600) = Inr (This, Carousel_disable car600)"
  using C9_select_noop [of car600 3] C9_select_noop [of car600 1]
    C9_select_noop [of "Carousel_disable car600" 2]
  by (simp add: car600_def pre600_def Carousel_disable_def disableArrows_def)

text \<open>
  \<^verbatim>\<open>prev()\<close> and \<^verbatim>\<open>next()\<close> select the neighbouring page, emit their notification and
  return the instance. When the page selection inside is a no-operation (the component is
  disabled, or the neighbouring page is below 1 or above the number of pages) the
  notification is the only change. On every well-formed instance the page selection
  returns, and the notification follows whatever it did. The constructor leaves a
  well-formed instance (\<open>init_wellformed\<close>), and page selections keep it so
  (\<open>select_returns\<close>, \<open>prev_next_wellformed\<close>).
\<close>

lemma prev_next_emit:
  "(\<not> enabled c \<or> currentPage c - 1 < 1 \<or> currentPage c - 1 > pages c \<longrightarrow>
      Carousel_prev c = Inr (This, emit Prev c)) \<and>
   (\<not> enabled c \<or> currentPage c + 1 < 1 \<or> currentPage c + 1 > pages c \<longrightarrow>
      Carousel_next c = Inr (This, emit Next c)) \<and>
   (wellformed c \<longrightarrow>
      (\<exists>c1. Carousel_select (Some (currentPage c - 1)) c = Inr (This, c1) \<and>
            Carousel_prev c = Inr (This, emit Prev c1)) \<and>
      (\<exists>c1. Carousel_select (Some (currentPage c + 1)) c = Inr (This, c1) \<and>
            Carousel_next c = Inr (This, emit Next c1)))"
proof (intro conjI impI)
  assume "\<not> enabled c \<or> currentPage c - 1 < 1 \<or> currentPage c - 1 > pages c"
  then show "Carousel_prev c = Inr (This, emit Prev c)"
    by (simp add: Carousel_prev_def Carousel_select_def)
next
  assume "\<not> enabled c \<or> currentPage c + 1 < 1 \<or> currentPage c + 1 > pages c"
  then show "Carousel_next c = Inr (This, emit Next c)"
    by (simp add: Carousel_next_def Carousel_select_def)
next
  assume wf: "wellformed c"
  from select_returns [OF wf, of "currentPage c - 1"]
  show "\<exists>c1. Carousel_select (Some (currentPage c - 1)) c = Inr (This, c1) \<and>
            Carousel_prev c = Inr (This, emit Prev c1)"
    by (auto simp: Carousel_prev_def)
next
  assume wf: "wellformed c"
  from select_returns [OF wf, of "currentPage c + 1"]
  show "\<exists>c1. Carousel_select (Some (currentPage c + 1)) c = Inr (This, c1) \<and>
            Carousel_next c = Inr (This, emit Next c1)"
    by (auto simp: Carousel_next_def)
qed

lemma prev_next_emit_examples:
  "currentPage car600 - 1 < 1 \<and> Carousel_prev car600 = Inr (This, emit Prev car600) \<and>
   currentPage car600_page2 + 1 > pages car600_page2 \<and>
   Carousel_next car600_page2 = Inr (This, emit Next car600_page2) \<and>
   \<not> enabled (Carousel_disable car600) \<and>
   Carousel_next (Carousel_disable car600) = Inr (This, emit Next (Carousel_disable car600)) \<and>
   wellformed car600 \<and>
   (\<exists>c1. Carousel_select (Some (currentPage car600 + 1)) car600 = Inr (This, c1) \<and>
         Carousel_next car600 = Inr (This, emit Next c1))"
  using prev_next_emit [of car600] prev_next_emit [of car600_page2]
    prev_next_emit [of "Carousel_disable car600"]
  by (simp add: car600_def car600_page2_def pre600_def wellformed_def Carousel_disable_def
      disableArrows_def)

text \<open>
  An instance that is not well-formed: the pagination has no thumbnail for the current
  page. Then \<^verbatim>\<open>prev()\<close> throws in \<^verbatim>\<open>_switchPagination\<close>, before its notification.
\<close>

lemma prev_TypeError:
  assumes "enabled c" and "paginationCreated c"
    and "1 \<le> currentPage c - 1" and "currentPage c - 1 \<le> pages c"
    and "int (length (thumbs c)) < currentPage c"
  shows "Carousel_prev c = Inl TypeError"
  using assms
  by (simp add: Carousel_prev_def Carousel_select_def switchPagination_def translate_def Let_def)

text \<open>
  C10: \<^verbatim>\<open>prev()\<close> always emits \<^verbatim>\<open>prev\<close>, \<^verbatim>\<open>next()\<close> always emits \<^verbatim>\<open>next\<close>, and both return
  the instance, also when the page selection inside is a no-operation. That holds in the
  cases of \<open>prev_next_emit\<close> and fails on the code where \<^verbatim>\<open>prev()\<close> throws before its
  notification. A Carousel with a pagination is built over six items, two to a
  page under a mask of 400 pixels, and its third page is selected. It is disabled, the
  viewport is resized so that the mask has 600 pixels, and it is enabled again: every
  call returns. The resize leaves two pages and two thumbnails, and the current page
  stays the third, because the page selection of \<^verbatim>\<open>_updateLimitPerPage\<close> is a
  no-operation on a disabled component. \<^verbatim>\<open>prev()\<close> then throws a \<^verbatim>\<open>TypeError\<close> and emits
  nothing.
\<close>

theorem C10_prev_TypeError:
  "map_sum id (\<lambda>c. (enabled c, currentPage c, pages c, length (thumbs c), emitted c))
     (calls [Carousel_select (Some 3), returning Carousel_disable, refresh 600,
             returning Carousel_enable]
        (Carousel_init opts_pag [Content, Content, Content, Content, Content, Content]
           400 200 200 100))
   = Inr (True, 3, 2, 2, [Select, Refresh]) \<and>
   calls [Carousel_select (Some 3), returning Carousel_disable, refresh 600,
          returning Carousel_enable, Carousel_prev]
     (Carousel_init opts_pag [Content, Content, Content, Content, Content, Content]
        400 200 200 100)
   = Inl TypeError"
  by (simp add: Carousel_init_def opts_pag_def addArrows_def addPagination_def removePagination_def
      addPagination_loop_returns upto.simps ceiling_divide_eq_div [of 1 2, simplified]
      Carousel_disable_def Carousel_enable_def returning_def
      Carousel_prev_def updateLimitPerPage_def newLimitPerPage_def updatePages_def
      loadAsyncItems_def Let_def updateArrows_def disableArrows_def Carousel_select_def
      switchPagination_def updateDistribution_def extraWidth_def moreThanOne_def freeSpace_def
      freeSpaceDistribution_def spaces_def translate_def emit_def refresh_def)

section \<open>Carousel: asynchronous items\<close>

text \<open>
  C3: one call of \<^verbatim>\<open>_loadAsyncItems\<close> injects at most the smaller of the remaining budget
  and the items the current page still needs, the remaining budget decreases by the
  number injected, and so the injected items never exceed the configured budget. The
  first part holds (\<open>loadAsyncItems_injects\<close>); the rest fails on the code, where the budget
  is never lowered (\<open>loadAsyncItems_async\<close>). A Carousel is built with an asynchronous
  budget of one item over three items, three to a page, so two pages. After \<^verbatim>\<open>select(2)\<close>,
  \<^verbatim>\<open>select(1)\<close>, \<^verbatim>\<open>select(2)\<close> the list holds two injected placeholders, and \<^verbatim>\<open>_async\<close>
  is still one.
\<close>

theorem C3_budget_not_decreased:
  "map_sum id (\<lambda>c. (injected c, async c))
     (calls [Carousel_select (Some 2), Carousel_select (Some 1), Carousel_select (Some 2)]
        (Carousel_init opts1 [Content, Content, Content] 600 200 200 100)) = Inr (2, 1)"
  unfolding init600 updateDistribution_pre600
  by (simp add: Carousel_select_def car600_def pre600_def translate_def switchPagination_def
      updateArrows_def disableArrows_def loadAsyncItems_eq needed_def emit_def slice_from_def
      Let_def injected_def)

theorem C3_budget_not_decreased_witness:
  "\<exists>c. calls [Carousel_select (Some 2), Carousel_select (Some 1), Carousel_select (Some 2)]
          (Carousel_init opts1 [Content, Content, Content] 600 200 200 100) = Inr c \<and>
       opt_async opts1 < int (injected c) \<and> async c = opt_async opts1"
  using C3_budget_not_decreased
  by (cases "calls [Carousel_select (Some 2), Carousel_select (Some 1), Carousel_select (Some 2)]
          (Carousel_init opts1 [Content, Content, Content] 600 200 200 100)")
     (simp_all add: opts1_def)

section \<open>Carousel: pages and items per page\<close>

lemma updatePages_pages:
  assumes "updatePages c = Inr c'"
  shows "pages c' =
           \<lceil>(of_int (int (length (items c)) + async c) :: real) / of_int (limitPerPage c)\<rceil> \<and>
         limitPerPage c' = limitPerPage c"
proof -
  let ?c1 = "c\<lparr>pages :=
               \<lceil>(of_int (int (length (items c)) + async c) :: real) / of_int (limitPerPage c)\<rceil>\<rparr>"
  from assms have nz: "limitPerPage c \<noteq> 0"
    by (auto simp: updatePages_def split: if_splits)
  from assms nz obtain c2 where l: "loadAsyncItems ?c1 = Inr c2"
    by (auto simp: updatePages_def Let_def split: sum.splits)
  from assms nz l have fin: "(if opt_pagination (options (updateArrows c2))
       then addPagination (updateArrows c2) else Inr (updateArrows c2)) = Inr c'"
    by (simp add: updatePages_def Let_def)
  have "pages c' = pages (updateArrows c2) \<and> limitPerPage c' = limitPerPage (updateArrows c2)"
    using fin addPagination_keeps [of "updateArrows c2" c'] by (auto split: if_splits)
  then show ?thesis
    using loadAsyncItems_keeps [OF l] by (simp add: updateArrows_keeps)
qed

lemma pages_nonneg:
  assumes "1 \<le> l" and "0 \<le> n"
  shows "0 \<le> \<lceil>(of_int n :: real) / of_int l\<rceil>"
proof -
  have "(0 :: real) \<le> of_int n / of_int l" using assms by simp
  then have "(- 1 :: real) < of_int n / of_int l" by linarith
  then show ?thesis by (simp add: le_ceiling_iff)
qed

lemma updatePages_returns:
  assumes "1 \<le> limitPerPage c" and "0 \<le> async c"
  shows "\<exists>c'. updatePages c = Inr c' \<and> async c' = async c \<and> currentPage c' = currentPage c \<and>
           (if opt_pagination (options c)
            then paginationCreated c' \<and> int (length (thumbs c')) = pages c'
            else paginationCreated c' = paginationCreated c \<and> thumbs c' = thumbs c)"
proof -
  let ?P = "\<lceil>(of_int (int (length (items c)) + async c) :: real) / of_int (limitPerPage c)\<rceil>"
  let ?c1 = "c\<lparr>pages := ?P\<rparr>"
  have a1: "0 \<le> async ?c1" using assms by simp
  obtain c2 where l: "loadAsyncItems ?c1 = Inr c2"
    using loadAsyncItems_eq [OF a1] by blast
  have k2: "pages c2 = ?P" "options c2 = options c" "currentPage c2 = currentPage c"
    "paginationCreated c2 = paginationCreated c" "thumbs c2 = thumbs c"
    using loadAsyncItems_keeps [OF l] by simp_all
  have a2: "async c2 = async c" using loadAsyncItems_async [OF a1 l] by simp
  have nz: "limitPerPage c \<noteq> 0" using assms by simp
  have up: "updatePages c =
              (if opt_pagination (options c) then addPagination (updateArrows c2)
               else Inr (updateArrows c2))"
    using nz l k2 by (simp add: updatePages_def Let_def updateArrows_keeps)
  show ?thesis
  proof (cases "opt_pagination (options c)")
    case True
    have "0 \<le> pages (updateArrows c2)"
      using pages_nonneg [of "limitPerPage c" "int (length (items c)) + async c"] assms
      by (simp add: updateArrows_keeps k2)
    from addPagination_returns [OF this] True up show ?thesis
      by (auto simp: updateArrows_keeps a2 k2)
  next
    case False
    with up show ?thesis by (simp add: updateArrows_keeps a2 k2)
  qed
qed

lemma addPagination_items:
  assumes "addPagination c = Inr c'"
  shows "items c' = items c"
  using assms
  by (auto simp: addPagination_def removePagination_def Let_def split: if_splits option.splits)

lemma updatePages_no_injection:
  assumes up: "updatePages c = Inr c'" and a: "0 \<le> async c"
    and n: "async c = 0 \<or> needed c < 1"
  shows "items c' = items c \<and> async c' = async c"
proof -
  let ?c1 = "c\<lparr>pages :=
               \<lceil>(of_int (int (length (items c)) + async c) :: real) / of_int (limitPerPage c)\<rceil>\<rparr>"
  from up have nz: "limitPerPage c \<noteq> 0"
    by (auto simp: updatePages_def split: if_splits)
  have a1: "0 \<le> async ?c1" using a by simp
  have l: "loadAsyncItems ?c1 = Inr ?c1"
    using n unfolding loadAsyncItems_eq [OF a1] by (simp add: needed_def)
  from up nz obtain c2 where l2: "loadAsyncItems ?c1 = Inr c2"
    by (auto simp: updatePages_def Let_def split: sum.splits)
  from up nz l2 have fin: "(if opt_pagination (options (updateArrows c2))
       then addPagination (updateArrows c2) else Inr (updateArrows c2)) = Inr c'"
    by (simp add: updatePages_def Let_def)
  have c2: "c2 = ?c1" using l l2 by simp
  from fin have "items c' = items (updateArrows c2) \<and> async c' = async (updateArrows c2)"
    using addPagination_items [of "updateArrows c2" c'] addPagination_keeps [of "updateArrows c2" c']
    by (auto split: if_splits)
  then show ?thesis by (simp add: updateArrows_keeps c2)
qed

text \<open>
  C5. When \<^verbatim>\<open>_updatePages\<close> recomputes the number of pages, the number it stores is the
  ceiling of (items in the list + pending asynchronous items) / items per page, all three
  as they are when the method is entered. With at least one item per page and a budget
  that is not negative the method returns. When the call injects no placeholder, the
  equation also holds of the counts when it returns.
\<close>

theorem C5_updatePages_pages:
  "(\<forall>c'. updatePages c = Inr c' \<longrightarrow>
       pages c' =
         \<lceil>(of_int (int (length (items c)) + async c) :: real) / of_int (limitPerPage c)\<rceil>) \<and>
   (1 \<le> limitPerPage c \<and> 0 \<le> async c \<longrightarrow>
      (\<exists>c'. updatePages c = Inr c' \<and>
            pages c' =
              \<lceil>(of_int (int (length (items c)) + async c) :: real) / of_int (limitPerPage c)\<rceil>)) \<and>
   (\<forall>c'. updatePages c = Inr c' \<and> 0 \<le> async c \<and> (async c = 0 \<or> needed c < 1) \<longrightarrow>
       pages c' =
         \<lceil>(of_int (int (length (items c')) + async c') :: real) / of_int (limitPerPage c')\<rceil>)"
proof (intro conjI allI impI)
  fix c' assume "updatePages c = Inr c'"
  then show "pages c' =
         \<lceil>(of_int (int (length (items c)) + async c) :: real) / of_int (limitPerPage c)\<rceil>"
    using updatePages_pages by blast
next
  assume "1 \<le> limitPerPage c \<and> 0 \<le> async c"
  then show "\<exists>c'. updatePages c = Inr c' \<and>
            pages c' =
              \<lceil>(of_int (int (length (items c)) + async c) :: real) / of_int (limitPerPage c)\<rceil>"
    using updatePages_pages [of c] updatePages_returns [of c] by blast
next
  fix c' assume h: "updatePages c = Inr c' \<and> 0 \<le> async c \<and> (async c = 0 \<or> needed c < 1)"
  then have "items c' = items c \<and> async c' = async c"
    using updatePages_no_injection [of c c'] by blast
  then show "pages c' =
         \<lceil>(of_int (int (length (items c')) + async c') :: real) / of_int (limitPerPage c')\<rceil>"
    using h updatePages_pages [of c c'] by simp
qed

theorem C5_updatePages_pages_witness:
  "1 \<le> limitPerPage car600 \<and> 0 \<le> async car600 \<and> needed car600 < 1 \<and>
   (\<exists>c'. updatePages car600 = Inr c' \<and> pages c' = 2 \<and>
         \<lceil>(of_int (int (length (items c')) + async c') :: real) / of_int (limitPerPage c')\<rceil> = 2) \<and>
   \<lceil>(of_int (int (length (items car600)) + async car600) :: real)
      / of_int (limitPerPage car600)\<rceil> = 2"
  using C5_updatePages_pages [of car600]
  by (auto simp add: car600_def pre600_def needed_def)

text \<open>
  When the call injects placeholders the items grow and the budget stays (see C3), so the
  counts at return give another number: five items and a budget of one, five to a page,
  with one page stored.
\<close>

lemma updatePages_after_injection:
  "map_sum id (\<lambda>c. (pages c, length (items c), async c, limitPerPage c))
     (updatePages (car600_page2\<lparr>limitPerPage := 5\<rparr>)) = Inr (1, 5, 1, 5)"
  by (simp add: updatePages_def car600_page2_def car600_def pre600_def opts1_def loadAsyncItems_eq
      needed_def Let_def updateArrows_def disableArrows_def emit_def)

lemma updateLimitPerPage_stores:
  assumes "updateLimitPerPage c = Inr c'"
  shows "limitPerPage c' = newLimitPerPage c"
proof (cases "newLimitPerPage c = limitPerPage c")
  case True
  with assms show ?thesis by (auto simp: updateLimitPerPage_def Let_def split: if_splits)
next
  case False
  from assms have nz: "itemOuterWidth c \<noteq> 0"
    by (auto simp: updateLimitPerPage_def split: if_splits)
  let ?c0 = "c\<lparr>limitPerPage := newLimitPerPage c\<rparr>"
  from assms False nz obtain c1 where up: "updatePages ?c0 = Inr c1"
    by (auto simp: updateLimitPerPage_def Let_def split: sum.splits)
  from assms False nz up obtain r p where sel: "Carousel_select (Some p) c1 = Inr (r, c')"
    by (auto simp: updateLimitPerPage_def Let_def split: sum.splits)
  have "limitPerPage c' = limitPerPage c1" by (rule select_limitPerPage [OF sel])
  also have "\<dots> = limitPerPage ?c0" using updatePages_pages [OF up] by simp
  finally show ?thesis by simp
qed

lemma newLimitPerPage_eq:
  assumes "0 < itemOuterWidth c" and "0 \<le> maskWidth c"
  shows "newLimitPerPage c =
           (case opt_limitPerPage (options c) of
              None \<Rightarrow> max 1 \<lfloor>maskWidth c / of_int (itemOuterWidth c)\<rfloor>
            | Some m \<Rightarrow> min m (max 1 \<lfloor>maskWidth c / of_int (itemOuterWidth c)\<rfloor>))"
proof -
  define q where "q = \<lfloor>maskWidth c / of_int (itemOuterWidth c)\<rfloor>"
  have "0 \<le> maskWidth c / of_int (itemOuterWidth c)" using assms by simp
  then have "0 \<le> q" by (simp add: q_def)
  then show ?thesis
    unfolding newLimitPerPage_def Let_def q_def [symmetric]
    by (auto split: option.splits)
qed

lemma updateLimitPerPage_returns:
  assumes iw: "itemOuterWidth c \<noteq> 0" and a: "0 \<le> async c" and l: "1 \<le> newLimitPerPage c"
    and pg: "if opt_pagination (options c)
             then 1 \<le> currentPage c \<and>
                  currentPage c \<le> \<lceil>(of_int (int (length (items c)) + async c) :: real)
                                     / of_int (newLimitPerPage c)\<rceil>
             else \<not> paginationCreated c"
  shows "\<exists>c'. updateLimitPerPage c = Inr c'"
proof (cases "newLimitPerPage c = limitPerPage c")
  case True
  with iw show ?thesis by (simp add: updateLimitPerPage_def)
next
  case False
  let ?c0 = "c\<lparr>limitPerPage := newLimitPerPage c\<rparr>"
  have "1 \<le> limitPerPage ?c0" "0 \<le> async ?c0" using a l by simp_all
  from updatePages_returns [OF this] obtain c1 where up: "updatePages ?c0 = Inr c1"
    and k: "async c1 = async c" "currentPage c1 = currentPage c"
      "if opt_pagination (options c)
       then paginationCreated c1 \<and> int (length (thumbs c1)) = pages c1
       else paginationCreated c1 = paginationCreated c \<and> thumbs c1 = thumbs c"
    by auto
  have p1: "pages c1 = \<lceil>(of_int (int (length (items c)) + async c) :: real)
                         / of_int (newLimitPerPage c)\<rceil>"
    using updatePages_pages [OF up] by simp
  have "wellformed c1"
    using a k pg p1 by (auto simp: wellformed_def split: if_splits)
  from select_returns [OF this] obtain c2 where
    "Carousel_select (Some \<lceil>(of_int ((currentPage c - 1) * limitPerPage c + 1) :: real)
                              / of_int (newLimitPerPage c)\<rceil>) c1 = Inr (This, c2)"
    by blast
  with False iw up show ?thesis by (simp add: updateLimitPerPage_def Let_def)
qed

text \<open>
  The constructor leaves a well-formed instance when the budget is not negative, the item
  has a width and the option \<^verbatim>\<open>limitPerPage\<close>, if set, is at least 1.
\<close>

lemma pages_pos:
  assumes "1 \<le> l" and "1 \<le> n"
  shows "1 \<le> \<lceil>(of_int n :: real) / of_int l\<rceil>"
proof -
  have "(0 :: real) < of_int n / of_int l" using assms by simp
  then show ?thesis by (simp add: le_ceiling_iff)
qed

lemma init_wellformed:
  assumes init: "Carousel_init opts lis W iw cw h = Inr c"
    and a: "0 \<le> opt_async opts" and cw: "0 < cw" and W: "0 \<le> W"
    and m: "\<forall>m. opt_limitPerPage opts = Some m \<longrightarrow> 1 \<le> m"
  shows "wellformed c"
proof -
  from init have ne: "lis \<noteq> []" by (auto simp: Carousel_init_def split: if_splits)
  let ?c0 = "\<lparr>options = opts, enabled = True, listChildren = lis, items = lis,
                  maskWidth = W, itemWidth = iw, itemOuterWidth = cw,
                  itemExtraWidth = 0, itemHeight = h, itemMargin = 0,
                  arrowsCreated = False, paginationCreated = False, limitPerPage = 0,
                  currentPage = 1, pages = 0, pageWidth = 0, async = opt_async opts,
                  thumbs = [], prevDisabled = True, nextDisabled = False,
                  listWidth = None, translation = None, emitted = []\<rparr>"
  from init ne obtain c1 where c1: "(if opt_pagination opts then addPagination ?c0 else Inr ?c0) = Inr c1"
    by (auto simp: Carousel_init_def Let_def split: sum.splits)
  define c2 where "c2 = (if opt_arrows (options c1) then addArrows c1 else c1)"
  from init ne c1 obtain c3 where c3: "updateLimitPerPage c2 = Inr c3"
    and c: "c = updateDistribution c3"
    by (auto simp: Carousel_init_def Let_def c2_def split: sum.splits)
  have f1: "options c1 = opts \<and> async c1 = opt_async opts \<and> currentPage c1 = 1 \<and>
            limitPerPage c1 = 0 \<and> itemOuterWidth c1 = cw \<and> maskWidth c1 = W \<and>
            items c1 = lis \<and> paginationCreated c1 = opt_pagination opts"
    using c1
    by (auto simp: addPagination_def removePagination_def Let_def addPagination_loop.simps
        split: if_splits)
  then have f2: "options c2 = opts \<and> async c2 = opt_async opts \<and> currentPage c2 = 1 \<and>
            limitPerPage c2 = 0 \<and> itemOuterWidth c2 = cw \<and> maskWidth c2 = W \<and>
            items c2 = lis \<and> paginationCreated c2 = opt_pagination opts"
    by (simp add: c2_def addArrows_def)
  have l: "1 \<le> newLimitPerPage c2"
    using newLimitPerPage_eq [of c2] f2 cw W m by (auto split: option.splits)
  let ?c = "c2\<lparr>limitPerPage := newLimitPerPage c2\<rparr>"
  have "1 \<le> limitPerPage ?c" "0 \<le> async ?c" using l a f2 by simp_all
  from updatePages_returns [OF this] obtain c4 where up: "updatePages ?c = Inr c4"
    and k: "async c4 = async c2" "currentPage c4 = currentPage c2"
      "if opt_pagination (options c2)
       then paginationCreated c4 \<and> int (length (thumbs c4)) = pages c4
       else paginationCreated c4 = paginationCreated c2 \<and> thumbs c4 = thumbs c2"
    by auto
  have "1 \<le> int (length lis) + opt_async opts" using ne a by (cases lis) auto
  from pages_pos [OF l this] have p4: "1 \<le> pages c4"
    using updatePages_pages [OF up] f2 by simp
  have wf4: "wellformed c4"
    using k p4 f2 a by (auto simp: wellformed_def split: if_splits)
  from c3 l f2 cw up obtain r p where sel: "Carousel_select (Some p) c4 = Inr (r, c3)"
    by (auto simp: updateLimitPerPage_def Let_def split: sum.splits if_splits)
  from select_returns [OF wf4, of p] sel have "wellformed c3" by auto
  then show ?thesis
    unfolding c by (simp add: wellformed_def updateDistribution_keeps)
qed

text \<open>
  C4, as the code has it. For a mask width \<open>W \<ge> 0\<close> and an item width \<open>Iw > 0\<close> the number
  of items per page that \<^verbatim>\<open>_updateLimitPerPage\<close> computes is \<open>max 1 \<lfloor>W / Iw\<rfloor>\<close>, lowered to
  the option \<^verbatim>\<open>limitPerPage\<close> when that is set and smaller, so it never exceeds the option.
  It is at least 1 when the option is not set or is at least 1. The method stores that
  number whenever it returns, and it returns when the budget is not negative, the number
  is at least 1 and the pagination, if the options ask for one, has the current page.
\<close>

theorem C4_limitPerPage:
  assumes "0 < itemOuterWidth c" and "0 \<le> maskWidth c"
  shows "newLimitPerPage c =
           (case opt_limitPerPage (options c) of
              None \<Rightarrow> max 1 \<lfloor>maskWidth c / of_int (itemOuterWidth c)\<rfloor>
            | Some m \<Rightarrow> min m (max 1 \<lfloor>maskWidth c / of_int (itemOuterWidth c)\<rfloor>)) \<and>
         (\<forall>m. opt_limitPerPage (options c) = Some m \<longrightarrow> newLimitPerPage c \<le> m) \<and>
         ((\<forall>m. opt_limitPerPage (options c) = Some m \<longrightarrow> 1 \<le> m) \<longrightarrow> 1 \<le> newLimitPerPage c) \<and>
         (\<forall>c'. updateLimitPerPage c = Inr c' \<longrightarrow> limitPerPage c' = newLimitPerPage c) \<and>
         (0 \<le> async c \<and> 1 \<le> newLimitPerPage c \<and>
          (if opt_pagination (options c)
           then 1 \<le> currentPage c \<and>
                currentPage c \<le> \<lceil>(of_int (int (length (items c)) + async c) :: real)
                                   / of_int (newLimitPerPage c)\<rceil>
           else \<not> paginationCreated c) \<longrightarrow>
          (\<exists>c'. updateLimitPerPage c = Inr c'))"
proof (intro conjI allI impI)
  show "newLimitPerPage c =
           (case opt_limitPerPage (options c) of
              None \<Rightarrow> max 1 \<lfloor>maskWidth c / of_int (itemOuterWidth c)\<rfloor>
            | Some m \<Rightarrow> min m (max 1 \<lfloor>maskWidth c / of_int (itemOuterWidth c)\<rfloor>))"
    by (rule newLimitPerPage_eq [OF assms])
next
  fix m assume "opt_limitPerPage (options c) = Some m"
  then show "newLimitPerPage c \<le> m" by (simp add: newLimitPerPage_eq [OF assms])
next
  assume "\<forall>m. opt_limitPerPage (options c) = Some m \<longrightarrow> 1 \<le> m"
  then show "1 \<le> newLimitPerPage c"
    by (auto simp: newLimitPerPage_eq [OF assms] split: option.splits)
next
  fix c' assume "updateLimitPerPage c = Inr c'"
  then show "limitPerPage c' = newLimitPerPage c" by (rule updateLimitPerPage_stores)
next
  assume h: "0 \<le> async c \<and> 1 \<le> newLimitPerPage c \<and>
          (if opt_pagination (options c)
           then 1 \<le> currentPage c \<and>
                currentPage c \<le> \<lceil>(of_int (int (length (items c)) + async c) :: real)
                                   / of_int (newLimitPerPage c)\<rceil>
           else \<not> paginationCreated c)"
  have "itemOuterWidth c \<noteq> 0" using assms by simp
  from updateLimitPerPage_returns [OF this] h show "\<exists>c'. updateLimitPerPage c = Inr c'"
    by blast
qed

text \<open>
  C4 as stated fails: with the option \<^verbatim>\<open>limitPerPage\<close> set to 0, a mask of 600 pixels and
  items of 200, the constructor leaves zero items per page.
\<close>

theorem C4_counterexample:
  "map_sum id limitPerPage
     (Carousel_init (opts1\<lparr>opt_limitPerPage := Some 0\<rparr>) [Content, Content, Content] 600 200 200 100)
   = Inr 0"
  by (simp add: Carousel_init_def opts1_def addArrows_def updateLimitPerPage_def
      newLimitPerPage_def Let_def updateDistribution_def extraWidth_def moreThanOne_def
      freeSpace_def freeSpaceDistribution_def spaces_def translate_def)

theorem C4_limitPerPage_witness:
  "0 < itemOuterWidth (car600\<lparr>maskWidth := 450\<rparr>) \<and> 0 \<le> maskWidth (car600\<lparr>maskWidth := 450\<rparr>) \<and>
   newLimitPerPage (car600\<lparr>maskWidth := 450\<rparr>) = 2 \<and>
   (\<exists>c'. updateLimitPerPage (car600\<lparr>maskWidth := 450\<rparr>) = Inr c' \<and> limitPerPage c' = 2) \<and>
   opt_limitPerPage (options (car600\<lparr>options := opts1\<lparr>opt_limitPerPage := Some 2\<rparr>\<rparr>)) = Some 2 \<and>
   newLimitPerPage (car600\<lparr>options := opts1\<lparr>opt_limitPerPage := Some 2\<rparr>\<rparr>) = 2"
  using C4_limitPerPage [of "car600\<lparr>maskWidth := 450\<rparr>"]
    C4_limitPerPage [of "car600\<lparr>options := opts1\<lparr>opt_limitPerPage := Some 2\<rparr>\<rparr>"]
  by (auto simp add: car600_def pre600_def opts1_def)

section \<open>Carousel: distribution\<close>

text \<open>
  C1, as the code has it. \<^verbatim>\<open>_updateDistribution\<close> returns early, leaving the instance as
  it is, exactly when the extra width it derives equals the stored one and is greater
  than zero. In every other case, also when both are zero, it stores the derived extra
  width and recomputes the margin, the page width, the width of the list and its
  displacement.
\<close>

theorem C1_skip_when_positive:
  "(extraWidth c = itemExtraWidth c \<and> 0 < extraWidth c \<longrightarrow> updateDistribution c = c) \<and>
   (\<not> (extraWidth c = itemExtraWidth c \<and> 0 < extraWidth c) \<longrightarrow>
      itemExtraWidth (updateDistribution c) = extraWidth c \<and>
      itemMargin (updateDistribution c) =
        (if opt_autoMargin (options c) \<and> 1 < limitPerPage c
         then freeSpace c / of_int (limitPerPage c - 1) / 2 else 0) \<and>
      pageWidth (updateDistribution c) =
        (of_int (itemOuterWidth c) + extraWidth c + itemMargin (updateDistribution c))
          * of_int (limitPerPage c) \<and>
      listWidth (updateDistribution c) =
        Some (pageWidth (updateDistribution c) * of_int (pages c)) \<and>
      translation (updateDistribution c) =
        Some (- pageWidth (updateDistribution c) * of_int (currentPage c - 1)))"
proof (cases "extraWidth c = itemExtraWidth c \<and> 0 < extraWidth c")
  case True
  then show ?thesis using updateDistribution_skip [of c] by simp
next
  case False
  show ?thesis
    unfolding updateDistribution_recompute [OF False] by (simp add: Let_def False)
qed

text \<open>
  C1 as stated fails: in the constructor the derived and the stored extra width are both
  zero, and the distribution is recomputed: the page width goes from 0 to 600 and the
  list gets its displacement.
\<close>

theorem C1_counterexample:
  "extraWidth pre600 = itemExtraWidth pre600 \<and> extraWidth pre600 = 0 \<and>
   pageWidth pre600 = 0 \<and> pageWidth (updateDistribution pre600) = 600 \<and>
   translation pre600 = None \<and> translation (updateDistribution pre600) = Some 0"
  by (simp add: updateDistribution_pre600 car600_def)
     (simp add: pre600_def extraWidth_def moreThanOne_def freeSpace_def
      freeSpaceDistribution_def opts1_def)

theorem C1_skip_when_positive_witness:
  "extraWidth car620 = itemExtraWidth car620 \<and> 0 < extraWidth car620 \<and>
   updateDistribution car620 = car620 \<and>
   \<not> (extraWidth pre620 = itemExtraWidth pre620 \<and> 0 < extraWidth pre620) \<and>
   itemExtraWidth (updateDistribution pre620) = 10 / 3 \<and>
   itemMargin (updateDistribution pre620) = 5 \<and>
   pageWidth (updateDistribution pre620) = 625"
  using C1_skip_when_positive [of car620] C1_skip_when_positive [of pre620]
  by (simp add: car620_def pre620_def pre600_def extraWidth_def moreThanOne_def freeSpace_def
      freeSpaceDistribution_def opts1_def)

text \<open>
  C6. In \<^verbatim>\<open>_updateDistribution\<close> the free space is \<open>F\<close> = mask width - item width * items
  per page. With the automatic margin and more than one item per page the extra width of
  each item is \<open>F\<close> / items per page / 2, and the margin between items that the method
  computes is \<open>F\<close> / (items per page - 1) / 2. Otherwise the computed margin is zero and
  the extra width takes all of \<open>F\<close>: \<open>F\<close> / items per page for each of several items,
  \<open>F\<close> itself up to one item per page. The extra width is the stored one after every
  call; the margin is stored by every call that does not return early.
\<close>

theorem C6_distribution:
  "freeSpace c = maskWidth c - of_int (itemOuterWidth c) * of_int (limitPerPage c) \<and>
   (if opt_autoMargin (options c) \<and> 1 < limitPerPage c
    then itemExtraWidth (updateDistribution c) = freeSpace c / of_int (limitPerPage c) / 2
    else if 1 < limitPerPage c
    then itemExtraWidth (updateDistribution c) = freeSpace c / of_int (limitPerPage c) \<and>
         itemExtraWidth (updateDistribution c) * of_int (limitPerPage c) = freeSpace c
    else itemExtraWidth (updateDistribution c) = freeSpace c) \<and>
   (\<not> (extraWidth c = itemExtraWidth c \<and> 0 < extraWidth c) \<longrightarrow>
      itemMargin (updateDistribution c) =
        (if opt_autoMargin (options c) \<and> 1 < limitPerPage c
         then freeSpace c / of_int (limitPerPage c - 1) / 2 else 0))"
proof -
  have ew: "itemExtraWidth (updateDistribution c) = extraWidth c"
  proof (cases "extraWidth c = itemExtraWidth c \<and> 0 < extraWidth c")
    case True
    then show ?thesis by (simp add: updateDistribution_skip)
  next
    case False
    then show ?thesis by (simp add: updateDistribution_recompute Let_def)
  qed
  have mg: "itemMargin (updateDistribution c) =
        (if opt_autoMargin (options c) \<and> 1 < limitPerPage c
         then freeSpace c / of_int (limitPerPage c - 1) / 2 else 0)"
    if "\<not> (extraWidth c = itemExtraWidth c \<and> 0 < extraWidth c)"
    unfolding updateDistribution_recompute [OF that] by (simp add: Let_def)
  have fs: "freeSpace c = maskWidth c - of_int (itemOuterWidth c) * of_int (limitPerPage c)"
    by (simp add: freeSpace_def)
  have "(if opt_autoMargin (options c) \<and> 1 < limitPerPage c
    then extraWidth c = freeSpace c / of_int (limitPerPage c) / 2
    else if 1 < limitPerPage c
    then extraWidth c = freeSpace c / of_int (limitPerPage c) \<and>
         extraWidth c * of_int (limitPerPage c) = freeSpace c
    else extraWidth c = freeSpace c)"
    by (simp add: extraWidth_def freeSpaceDistribution_def moreThanOne_def)
  with fs mg show ?thesis unfolding ew by blast
qed

theorem C6_distribution_witness:
  "\<not> (extraWidth pre620 = itemExtraWidth pre620 \<and> 0 < extraWidth pre620) \<and>
   freeSpace pre620 = 20 \<and> opt_autoMargin (options pre620) \<and> 1 < limitPerPage pre620 \<and>
   itemExtraWidth (updateDistribution pre620) = 20 / 3 / 2 \<and>
   itemMargin (updateDistribution pre620) = 20 / 2 / 2"
  using C6_distribution [of pre620]
  by (simp add: pre620_def pre600_def extraWidth_def moreThanOne_def freeSpace_def
      freeSpaceDistribution_def opts1_def)

text \<open>
  The early return can keep a distribution that no longer fits. Built under a mask of 420
  pixels the Carousel has two items per page, an extra width of 5, a margin of 10 and a
  page width of 430. Resized to 205 pixels it has one item per page and derives the extra
  width 5 again, so margin and page width stay, for a mask of 205.
\<close>

lemma init420:
  "Carousel_init opts1 [Content, Content, Content] 420 200 200 100 = Inr car420"
  by (simp add: Carousel_init_def opts1_def pre600_def car420_def addArrows_def
      updateLimitPerPage_def newLimitPerPage_def updatePages_def loadAsyncItems_eq needed_def
      Let_def updateArrows_def disableArrows_def Carousel_select_def
      updateDistribution_def extraWidth_def moreThanOne_def freeSpace_def
      freeSpaceDistribution_def spaces_def translate_def
      ceiling_divide_eq_div [of 1 2, simplified])

lemma refresh_keeps_stale_distribution:
  "refresh 205 car420 =
     Inr (This, emit Refresh (car420\<lparr>maskWidth := 205, limitPerPage := 1, pages := 4\<rparr>))"
  by (simp add: refresh_def car420_def pre600_def opts1_def
      updateLimitPerPage_def newLimitPerPage_def updatePages_def loadAsyncItems_eq needed_def
      Let_def updateArrows_def disableArrows_def Carousel_select_def
      updateDistribution_def extraWidth_def moreThanOne_def freeSpace_def
      freeSpaceDistribution_def spaces_def translate_def emit_def)

text \<open>
  A resize can end in a \<^verbatim>\<open>TypeError\<close>. With a pagination, three items, one to a page, and
  the third page selected, a mask of 600 pixels gives one page and one thumbnail, and the
  page selection of \<^verbatim>\<open>_updateLimitPerPage\<close> then looks for the thumbnail of page 3.
\<close>

lemma refresh_TypeError:
  "calls [Carousel_select (Some 3), refresh 600]
     (Carousel_init opts_pag [Content, Content, Content] 200 200 200 100) = Inl TypeError"
  by (simp add: Carousel_init_def opts_pag_def addArrows_def addPagination_def removePagination_def
      addPagination_loop_returns upto.simps
      updateLimitPerPage_def newLimitPerPage_def updatePages_def loadAsyncItems_def
      Let_def updateArrows_def disableArrows_def Carousel_select_def switchPagination_def
      updateDistribution_def extraWidth_def moreThanOne_def freeSpace_def
      freeSpaceDistribution_def spaces_def translate_def emit_def refresh_def)

end
